theory Spec2Isabelle
  imports Complex_Main
begin

section \<open>The store: tables of \<^verbatim>\<open>init_db\<close>\<close>

text \<open>
  The backend (\<^verbatim>\<open>store_manager_backend.py\<close>) keeps three SQLite tables. Each table is a
  list of rows in insertion order. Text columns are \<open>string\<close> (ASCII) and the INTEGER
  columns are \<open>int\<close>. The REAL columns hold Python floats: a finite float is the \<open>real\<close>
  it denotes, and arithmetic on floats rounds (section \<open>Python floats\<close>); infinities and NaN
  are outside the model. Arguments have the types the callers pass (\<^verbatim>\<open>None\<close> and values
  of another type are excluded by typing), and integers are taken to fit SQLite's 64-bit
  INTEGER.
\<close>

record product =
  sku :: string
  name :: string
  price :: real
  quantity :: int

record transaction_row =
  transaction_id :: int
  timestamp :: string
  total_amount :: real

record transaction_item =
  item_id :: int
  item_transaction_id :: int
  product_sku :: string
  quantity_sold :: int
  price_at_sale :: real

text \<open>
  Both AUTOINCREMENT keys keep their high-water mark in \<^verbatim>\<open>sqlite_sequence\<close>; the mark
  is part of the database file, so a rollback restores it with everything else.
\<close>

record db =
  products :: "product list"
  transactions :: "transaction_row list"
  transaction_items :: "transaction_item list"
  transactions_seq :: int
  transaction_items_seq :: int

definition init_db :: db where
  "init_db = \<lparr>products = [], transactions = [], transaction_items = [],
              transactions_seq = 0, transaction_items_seq = 0\<rparr>"

section \<open>Exceptions\<close>

text \<open>
  The backend signals every failure with \<^verbatim>\<open>ValueError\<close> or \<^verbatim>\<open>RuntimeError\<close> and
  tells the failures apart by their message; \<^verbatim>\<open>sqlite3.IntegrityError\<close> is what a violated
  constraint raises inside a \<^verbatim>\<open>try\<close> block. A message is one constructor per
  \<^verbatim>\<open>raise\<close> of the source, with the values its f-string interpolates.
\<close>

datatype message =
    Missing_required_product_information
  | Price_and_Quantity_cannot_be_negative
  | SKU_already_exists string
  | Database_error_adding_product message
  | SKU_cannot_be_empty
  | Product_not_found string
  | Could_not_delete_product string
  | Cannot_remove_part_of_past_transactions string message
  | Database_error_removing_product message
  | Cannot_process_an_empty_bill
  | Insufficient_stock string string int
  | Database_error_during_checkout message
  | Transaction_ID_not_found int
  | Database_error_fetching_transaction_details message
  | UNIQUE_constraint_failed
  | CHECK_constraint_failed
  | FOREIGN_KEY_constraint_failed

datatype exn = ValueError message | RuntimeError message | IntegrityError message

fun str_of_exn :: "exn \<Rightarrow> message" where
  "str_of_exn (ValueError m) = m"
| "str_of_exn (RuntimeError m) = m"
| "str_of_exn (IntegrityError m) = m"

section \<open>Python string methods, on ASCII\<close>

definition whitespace :: "char list" where
  "whitespace = [CHR 0x09, CHR 0x0A, CHR 0x0B, CHR 0x0C, CHR 0x0D,
                 CHR 0x1C, CHR 0x1D, CHR 0x1E, CHR 0x1F, CHR 0x20]"

definition isspace :: "char \<Rightarrow> bool" where
  "isspace c = (c \<in> set whitespace)"

definition str_strip :: "string \<Rightarrow> string" where
  "str_strip s = rev (dropWhile isspace (rev (dropWhile isspace s)))"

definition upper_char :: "char \<Rightarrow> char" where
  "upper_char c =
     (case map_of (zip ''abcdefghijklmnopqrstuvwxyz'' ''ABCDEFGHIJKLMNOPQRSTUVWXYZ'') c of
        None \<Rightarrow> c
      | Some u \<Rightarrow> u)"

definition str_upper :: "string \<Rightarrow> string" where
  "str_upper s = map upper_char s"

section \<open>The SQL statements\<close>

text \<open>\<^verbatim>\<open>SELECT ... FROM products WHERE sku = ?\<close> followed by \<^verbatim>\<open>fetchone()\<close>.\<close>

definition select_product :: "db \<Rightarrow> string \<Rightarrow> product option" where
  "select_product d s = find (\<lambda>p. sku p = s) (products d)"

text \<open>
  \<^verbatim>\<open>INSERT INTO products\<close>: the row must pass both CHECK constraints and the primary
  key.
\<close>

definition insert_product :: "db \<Rightarrow> product \<Rightarrow> exn + db" where
  "insert_product d p =
     (if price p < 0 \<or> quantity p < 0 then Inl (IntegrityError CHECK_constraint_failed)
      else if sku p \<in> set (map sku (products d)) then Inl (IntegrityError UNIQUE_constraint_failed)
      else Inr (d\<lparr>products := products d @ [p]\<rparr>))"

text \<open>
  \<^verbatim>\<open>DELETE FROM products WHERE sku = ?\<close> with foreign keys switched on
  (\<^verbatim>\<open>get_db_connection\<close>): \<^verbatim>\<open>ON DELETE RESTRICT\<close> refuses to delete a row that a
  line item references. The second component is \<^verbatim>\<open>cursor.rowcount\<close>.
\<close>

definition delete_product :: "db \<Rightarrow> string \<Rightarrow> exn + db \<times> nat" where
  "delete_product d s =
     (if list_ex (\<lambda>p. sku p = s) (products d) \<and>
         list_ex (\<lambda>ti. product_sku ti = s) (transaction_items d)
      then Inl (IntegrityError FOREIGN_KEY_constraint_failed)
      else Inr (d\<lparr>products := filter (\<lambda>p. sku p \<noteq> s) (products d)\<rparr>,
                length (filter (\<lambda>p. sku p = s) (products d))))"

text \<open>
  An AUTOINCREMENT key is one more than the largest key the table ever held.
\<close>

definition next_rowid :: "int \<Rightarrow> int list \<Rightarrow> int" where
  "next_rowid seq ids = foldr max ids seq + 1"

text \<open>
  \<^verbatim>\<open>INSERT INTO transactions (total_amount) VALUES (?)\<close>; the timestamp column
  defaults to the clock, an input of the model. Returns \<^verbatim>\<open>cursor.lastrowid\<close> too.
\<close>

definition insert_transaction :: "db \<Rightarrow> string \<Rightarrow> real \<Rightarrow> db \<times> int" where
  "insert_transaction d now amount =
     (let tid = next_rowid (transactions_seq d) (map transaction_id (transactions d))
      in (d\<lparr>transactions := transactions d @
               [\<lparr>transaction_id = tid, timestamp = now, total_amount = amount\<rparr>],
            transactions_seq := tid\<rparr>, tid))"

text \<open>\<^verbatim>\<open>INSERT INTO transaction_items\<close>: both foreign keys are checked at once.\<close>

definition insert_transaction_item :: "db \<Rightarrow> int \<Rightarrow> string \<Rightarrow> int \<Rightarrow> real \<Rightarrow> exn + db" where
  "insert_transaction_item d tid s q p =
     (if list_ex (\<lambda>t. transaction_id t = tid) (transactions d) \<and>
         list_ex (\<lambda>pr. sku pr = s) (products d)
      then (let iid = next_rowid (transaction_items_seq d) (map item_id (transaction_items d))
            in Inr (d\<lparr>transaction_items := transaction_items d @
                      [\<lparr>item_id = iid, item_transaction_id = tid, product_sku = s,
                        quantity_sold = q, price_at_sale = p\<rparr>],
                    transaction_items_seq := iid\<rparr>))
      else Inl (IntegrityError FOREIGN_KEY_constraint_failed))"

text \<open>
  \<^verbatim>\<open>UPDATE products SET quantity = quantity - ? WHERE sku = ?\<close>: every updated row
  must still pass \<^verbatim>\<open>CHECK(quantity >= 0)\<close>.
\<close>

definition decrement :: "string \<Rightarrow> int \<Rightarrow> product \<Rightarrow> product" where
  "decrement s q p = (if sku p = s then p\<lparr>quantity := quantity p - q\<rparr> else p)"

definition update_stock :: "db \<Rightarrow> string \<Rightarrow> int \<Rightarrow> exn + db" where
  "update_stock d s q =
     (if list_all (\<lambda>p. sku p = s \<longrightarrow> 0 \<le> quantity p - q) (products d)
      then Inr (d\<lparr>products := map (decrement s q) (products d)\<rparr>)
      else Inl (IntegrityError CHECK_constraint_failed))"

section \<open>Product management\<close>

text \<open>
  \<^verbatim>\<open>add_product\<close>: the two guards come first, on the arguments as given; the row that
  is inserted holds the stripped, upper-cased sku and the stripped name. On success the
  message names the arguments as given. \<^verbatim>\<open>float(price)\<close> and \<^verbatim>\<open>int(quantity)\<close>
  are the identity on a float and an int, so the handler for their \<^verbatim>\<open>ValueError\<close> is
  never entered; every other exception takes the generic handler.
\<close>

definition add_product :: "db \<Rightarrow> string \<Rightarrow> string \<Rightarrow> real \<Rightarrow> int \<Rightarrow> (exn + string \<times> string) \<times> db" where
  "add_product d sku' name' price' quantity' =
     (if sku' = [] \<or> name' = [] then (Inl (ValueError Missing_required_product_information), d)
      else if price' < 0 \<or> quantity' < 0
        then (Inl (ValueError Price_and_Quantity_cannot_be_negative), d)
      else
        (case insert_product d \<lparr>sku = str_upper (str_strip sku'), name = str_strip name',
                                 price = price', quantity = quantity'\<rparr> of
           Inr d' \<Rightarrow> (Inr (name', sku'), d')
         | Inl (IntegrityError m) \<Rightarrow> (Inl (ValueError (SKU_already_exists sku')), d)
         | Inl e \<Rightarrow> (Inl (RuntimeError (Database_error_adding_product (str_of_exn e))), d)))"

text \<open>
  \<^verbatim>\<open>remove_product\<close>. The body of the \<^verbatim>\<open>try\<close> block raises like the source does; the
  handlers follow in the source's order: \<^verbatim>\<open>sqlite3.IntegrityError\<close> first, then
  \<^verbatim>\<open>Exception\<close>, which also catches the two exceptions the body raises itself. The
  row-count check runs after \<^verbatim>\<open>commit\<close>, so the rollback of its handler undoes nothing.
\<close>

definition remove_product_try :: "db \<Rightarrow> string \<Rightarrow> (exn + string) \<times> db" where
  "remove_product_try d s =
     (case select_product d s of
        None \<Rightarrow> (Inl (ValueError (Product_not_found s)), d)
      | Some product \<Rightarrow>
          (case delete_product d s of
             Inl e \<Rightarrow> (Inl e, d)
           | Inr (d', rowcount) \<Rightarrow>
               if rowcount = 0 then (Inl (RuntimeError (Could_not_delete_product s)), d')
               else (Inr (name product), d')))"

definition remove_product :: "db \<Rightarrow> string \<Rightarrow> (exn + string) \<times> db" where
  "remove_product d s =
     (if s = [] then (Inl (ValueError SKU_cannot_be_empty), d)
      else
        (case remove_product_try d s of
           (Inr r, d') \<Rightarrow> (Inr r, d')
         | (Inl (IntegrityError m), d') \<Rightarrow>
             (Inl (ValueError (Cannot_remove_part_of_past_transactions s m)), d')
         | (Inl e, d') \<Rightarrow>
             (Inl (RuntimeError (Database_error_removing_product (str_of_exn e))), d')))"


section \<open>Python floats\<close>

text \<open>
  A Python float is an IEEE 754 binary64 number. An operation on floats returns the exact
  result rounded to the nearest float, ties to the even significand: 53 significant bits,
  and below \<open>2 powi - 1022\<close> the fixed spacing \<open>2 powi - 1074\<close> of the subnormal numbers.
  A result of magnitude \<open>2 ^ 1024\<close> or more is an infinity in Python and has no counterpart
  here.
\<close>

definition round_even :: "real \<Rightarrow> int" where
  "round_even x =
     (let f = \<lfloor>x\<rfloor>; r = x - of_int f
      in if r < 1 / 2 then f else if 1 / 2 < r then f + 1 else if even f then f else f + 1)"

text \<open>The exponent of the spacing of the floats around \<open>x\<close>.\<close>

definition ulp_exponent :: "real \<Rightarrow> int" where
  "ulp_exponent x = max \<lfloor>log 2 \<bar>x\<bar>\<rfloor> (- 1022) - 52"

definition round_float :: "real \<Rightarrow> real" where
  "round_float x =
     (if x = 0 then 0
      else of_int (round_even (x / 2 powi ulp_exponent x)) * 2 powi ulp_exponent x)"

text \<open>\<^verbatim>\<open>float(i)\<close>, \<^verbatim>\<open>x * y\<close> and \<^verbatim>\<open>x + y\<close>; an int operand is converted first.\<close>

definition float_of_int :: "int \<Rightarrow> real" where
  "float_of_int i = round_float (of_int i)"

definition float_mul :: "real \<Rightarrow> real \<Rightarrow> real" where
  "float_mul x y = round_float (x * y)"

definition float_add :: "real \<Rightarrow> real \<Rightarrow> real" where
  "float_add x y = round_float (x + y)"


section \<open>Billing\<close>

text \<open>A bill item is the tuple \<^verbatim>\<open>(sku, name, price_at_sale, quantity_sold)\<close>.\<close>

type_synonym bill_item = "string \<times> string \<times> real \<times> int"

text \<open>
  \<^verbatim>\<open>sum(item[2] * item[3] for item in bill_items)\<close>: each product is a float times an
  int, and \<^verbatim>\<open>sum\<close> adds the products from the left, starting at 0, one float addition
  per item (the loop of CPython up to 3.11; from 3.12 on \<^verbatim>\<open>sum\<close> also carries a
  compensation term for floats, which the model leaves out).
\<close>

definition current_total :: "bill_item list \<Rightarrow> real" where
  "current_total bill_items =
     foldl float_add 0 (map (\<lambda>(s, n, unit_price, qty_sold).
                               float_mul unit_price (float_of_int qty_sold)) bill_items)"

text \<open>
  Step 2 of \<^verbatim>\<open>process_sale\<close>, the loop over the bill: re-read the stock, insert the line
  item, decrement the stock. The first exception ends the loop.
\<close>

fun sale_items :: "db \<Rightarrow> int \<Rightarrow> bill_item list \<Rightarrow> exn + db" where
  "sale_items d tid [] = Inr d"
| "sale_items d tid ((s, n, unit_price, qty_sold) # rest) =
     (case select_product d s of
        None \<Rightarrow> Inl (ValueError (Insufficient_stock n s 0))
      | Some row \<Rightarrow>
          if quantity row < qty_sold
          then Inl (ValueError (Insufficient_stock n s (quantity row)))
          else
            (case insert_transaction_item d tid s qty_sold unit_price of
               Inl e \<Rightarrow> Inl e
             | Inr d1 \<Rightarrow>
                 (case update_stock d1 s qty_sold of
                    Inl e \<Rightarrow> Inl e
                  | Inr d2 \<Rightarrow> sale_items d2 tid rest)))"

text \<open>
  \<^verbatim>\<open>process_sale\<close>: commit keeps the working state, rollback returns to the state the
  call started from. A \<^verbatim>\<open>ValueError\<close> is re-raised as it is, anything else becomes a
  \<^verbatim>\<open>RuntimeError\<close>.
\<close>

definition process_sale :: "db \<Rightarrow> string \<Rightarrow> bill_item list \<Rightarrow> (exn + int) \<times> db" where
  "process_sale d now bill_items =
     (if bill_items = [] then (Inl (ValueError Cannot_process_an_empty_bill), d)
      else
        (case insert_transaction d now (current_total bill_items) of
           (d1, tid) \<Rightarrow>
             (case sale_items d1 tid bill_items of
                Inr d2 \<Rightarrow> (Inr tid, d2)
              | Inl (ValueError m) \<Rightarrow> (Inl (ValueError m), d)
              | Inl e \<Rightarrow>
                  (Inl (RuntimeError (Database_error_during_checkout (str_of_exn e))), d))))"

section \<open>Receipts\<close>

text \<open>
  \<^verbatim>\<open>get_transaction_details\<close>: the summary row, then the join of the line items with
  the products on the sku, giving \<^verbatim>\<open>(quantity_sold, name, product_sku, price_at_sale)\<close>.
  The single handler \<^verbatim>\<open>except Exception\<close> also catches the \<^verbatim>\<open>ValueError\<close> of the body.
\<close>

definition select_items :: "db \<Rightarrow> int \<Rightarrow> (int \<times> string \<times> string \<times> real) list" where
  "select_items d tid =
     concat (map (\<lambda>ti. map (\<lambda>p. (quantity_sold ti, name p, product_sku ti, price_at_sale ti))
                          (filter (\<lambda>p. product_sku ti = sku p) (products d)))
                 (filter (\<lambda>ti. item_transaction_id ti = tid) (transaction_items d)))"

definition get_transaction_details_try ::
  "db \<Rightarrow> int \<Rightarrow> exn + (int \<times> string \<times> real) \<times> (int \<times> string \<times> string \<times> real) list" where
  "get_transaction_details_try d tid =
     (case find (\<lambda>t. transaction_id t = tid) (transactions d) of
        None \<Rightarrow> Inl (ValueError (Transaction_ID_not_found tid))
      | Some t \<Rightarrow> Inr ((transaction_id t, timestamp t, total_amount t), select_items d tid))"

definition get_transaction_details ::
  "db \<Rightarrow> int \<Rightarrow> exn + (int \<times> string \<times> real) \<times> (int \<times> string \<times> string \<times> real) list" where
  "get_transaction_details d tid =
     (case get_transaction_details_try d tid of
        Inr r \<Rightarrow> Inr r
      | Inl e \<Rightarrow> Inl (RuntimeError (Database_error_fetching_transaction_details (str_of_exn e))))"

section \<open>Properties of the store\<close>

text \<open>
  The constraints the \<^verbatim>\<open>products\<close> table declares: the sku is the primary key, price
  and quantity pass their CHECKs.
\<close>

definition products_ok :: "db \<Rightarrow> bool" where
  "products_ok d \<longleftrightarrow>
     distinct (map sku (products d)) \<and> list_all (\<lambda>p. 0 \<le> price p \<and> 0 \<le> quantity p) (products d)"

text \<open>The foreign key of \<^verbatim>\<open>transaction_items\<close> into \<^verbatim>\<open>products\<close>.\<close>

definition references_ok :: "db \<Rightarrow> bool" where
  "references_ok d \<longleftrightarrow>
     list_all (\<lambda>ti. list_ex (\<lambda>p. sku p = product_sku ti) (products d)) (transaction_items d)"

text \<open>The quantity of sku \<open>s\<close> a bill sells, duplicates of the sku added up.\<close>

definition sold :: "string \<Rightarrow> bill_item list \<Rightarrow> int" where
  "sold s bill_items =
     sum_list (map (\<lambda>(s', n, unit_price, qty_sold). qty_sold)
                   (filter (\<lambda>(s', n, unit_price, qty_sold). s' = s) bill_items))"

text \<open>
  Item \<open>k\<close> of a bill is covered when its product exists and the stock on hand is at least
  what the bill sells of that sku up to and including item \<open>k\<close>.
\<close>

definition covered :: "db \<Rightarrow> bill_item list \<Rightarrow> nat \<Rightarrow> bool" where
  "covered d bill_items k =
     (case bill_items ! k of
        (s, n, unit_price, qty_sold) \<Rightarrow>
          (case select_product d s of
             None \<Rightarrow> False
           | Some row \<Rightarrow> sold s (take (Suc k) bill_items) \<le> quantity row))"

definition sufficient_stock :: "db \<Rightarrow> bill_item list \<Rightarrow> bool" where
  "sufficient_stock d bill_items \<longleftrightarrow> list_all (covered d bill_items) [0..<length bill_items]"




text \<open>The line item \<^verbatim>\<open>process_sale\<close> records for a bill item, without its \<^verbatim>\<open>item_id\<close>.\<close>

definition line_of :: "transaction_item \<Rightarrow> int \<times> string \<times> int \<times> real" where
  "line_of ti = (item_transaction_id ti, product_sku ti, quantity_sold ti, price_at_sale ti)"

definition sold_line :: "int \<Rightarrow> bill_item \<Rightarrow> int \<times> string \<times> int \<times> real" where
  "sold_line tid item = (case item of (s, n, unit_price, qty_sold) \<Rightarrow> (tid, s, qty_sold, unit_price))"

text \<open>
  The rows a call added to \<^verbatim>\<open>transaction_items\<close> and \<^verbatim>\<open>transactions\<close> are those
  after the rows of the store it started from. They are in order when every new line item
  has a positive quantity and a non-negative price and every new total is non-negative.
\<close>

definition sale_records_ok :: "db \<Rightarrow> db \<Rightarrow> bool" where
  "sale_records_ok d d' \<longleftrightarrow>
     list_all (\<lambda>ti. 0 < quantity_sold ti \<and> 0 \<le> price_at_sale ti)
       (drop (length (transaction_items d)) (transaction_items d')) \<and>
     list_all (\<lambda>t. 0 \<le> total_amount t) (drop (length (transactions d)) (transactions d'))"

text \<open>A sku is referenced when some line item carries it.\<close>

definition referenced :: "db \<Rightarrow> string \<Rightarrow> bool" where
  "referenced d s = list_ex (\<lambda>ti. product_sku ti = s) (transaction_items d)"

section \<open>Example stores\<close>

text \<open>A catalog with one product, \<^verbatim>\<open>("SKU1", "Widget", 9.75, stock)\<close>, and no sales yet.\<close>

definition widget_store :: "int \<Rightarrow> db" where
  "widget_store stock =
     \<lparr>products = [\<lparr>sku = ''SKU1'', name = ''Widget'', price = 9.75, quantity = stock\<rparr>],
      transactions = [], transaction_items = [],
      transactions_seq = 0, transaction_items_seq = 0\<rparr>"

text \<open>
  The store after the sale \<^verbatim>\<open>[("SKU1", "Widget", 9.75, 3)]\<close> at
  \<^verbatim>\<open>"2024-01-01 00:00:00"\<close> on \<open>widget_store 5\<close>.
\<close>

definition sold_widget_store :: db where
  "sold_widget_store =
     \<lparr>products = [\<lparr>sku = ''SKU1'', name = ''Widget'', price = 9.75, quantity = 2\<rparr>],
      transactions = [\<lparr>transaction_id = 1, timestamp = ''2024-01-01 00:00:00'', total_amount = 29.25\<rparr>],
      transaction_items = [\<lparr>item_id = 1, item_transaction_id = 1, product_sku = ''SKU1'',
                             quantity_sold = 3, price_at_sale = 9.75\<rparr>],
      transactions_seq = 1, transaction_items_seq = 1\<rparr>"

text \<open>
  The float Python reads for \<^verbatim>\<open>0.1\<close> (\<^verbatim>\<open>(0.1).as_integer_ratio()\<close>), and a catalog
  whose one product has that price.
\<close>

definition one_tenth :: real where
  "one_tenth = 3602879701896397 / 36028797018963968"


text \<open>
  The store after \<^verbatim>\<open>add_product("  ", "Widget", 1.0, 5)\<close> on the empty store and one
  sale of that product at \<^verbatim>\<open>"2024-01-01 00:00:00"\<close>.
\<close>

definition blank_sku_store :: db where
  "blank_sku_store =
     \<lparr>products = [\<lparr>sku = [], name = ''Widget'', price = 1, quantity = 4\<rparr>],
      transactions = [\<lparr>transaction_id = 1, timestamp = ''2024-01-01 00:00:00'', total_amount = 1\<rparr>],
      transaction_items = [\<lparr>item_id = 1, item_transaction_id = 1, product_sku = [],
                             quantity_sold = 1, price_at_sale = 1\<rparr>],
      transactions_seq = 1, transaction_items_seq = 1\<rparr>"

section \<open>Rounding\<close>

lemma ulp_exponent_eq:
  assumes "2 powi k \<le> \<bar>x\<bar>" and "\<bar>x\<bar> < 2 powi (k + 1)" and "- 1022 \<le> k"
  shows "ulp_exponent x = k - 52"
proof -
  have "(0::real) < 2 powi k"
    by simp
  then have pos: "0 < \<bar>x\<bar>"
    using assms(1) by linarith
  have p1: "2 powr real_of_int k = (2::real) powi k"
    by (rule powr_real_of_int') simp_all
  have p2: "2 powr (real_of_int k + 1) = (2::real) powi (k + 1)"
    using powr_real_of_int' [of "2::real" "k + 1"] by simp
  have "\<lfloor>log 2 \<bar>x\<bar>\<rfloor> = k"
    using assms(1,2) pos by (simp add: floor_log_eq_powr_iff p1 p2)
  then show ?thesis
    using assms(3) by (simp add: ulp_exponent_def)
qed

lemma round_float_eq:
  assumes "2 powi k \<le> \<bar>x\<bar>" and "\<bar>x\<bar> < 2 powi (k + 1)" and "- 1022 \<le> k"
  shows "round_float x = of_int (round_even (x / 2 powi (k - 52))) * 2 powi (k - 52)"
proof -
  have "(0::real) < 2 powi k"
    by simp
  then have "0 < \<bar>x\<bar>"
    using assms(1) by linarith
  then have "x \<noteq> 0"
    by simp
  then show ?thesis
    by (simp add: round_float_def ulp_exponent_eq [OF assms])
qed

lemma round_even_nonneg: "0 \<le> x \<Longrightarrow> 0 \<le> round_even x"
  by (auto simp: round_even_def Let_def)

lemma round_float_nonneg: "0 \<le> x \<Longrightarrow> 0 \<le> round_float x"
  by (auto simp: round_float_def intro!: mult_nonneg_nonneg round_even_nonneg divide_nonneg_pos)

lemma float_of_int_nonneg: "0 \<le> i \<Longrightarrow> 0 \<le> float_of_int i"
  by (simp add: float_of_int_def round_float_nonneg)

lemma float_mul_nonneg: "0 \<le> x \<Longrightarrow> 0 \<le> y \<Longrightarrow> 0 \<le> float_mul x y"
  by (simp add: float_mul_def round_float_nonneg)

lemma float_add_nonneg: "0 \<le> x \<Longrightarrow> 0 \<le> y \<Longrightarrow> 0 \<le> float_add x y"
  by (simp add: float_add_def round_float_nonneg)

text \<open>The floats the example bills compute with.\<close>

lemma round_float_1: "round_float 1 = 1"
  by (subst round_float_eq [of 0]) (simp_all add: round_even_def power_int_minus)

lemma round_float_minus_1: "round_float (- 1) = - 1"
  by (subst round_float_eq [of 0]) (simp_all add: round_even_def power_int_minus)


lemma round_float_3: "round_float 3 = 3"
  by (subst round_float_eq [of 1]) (simp_all add: round_even_def power_int_minus)

lemma round_float_9_75: "round_float (39 / 4) = 39 / 4" "round_float (- (39 / 4)) = - (39 / 4)"
  by (subst round_float_eq [of 3]; simp add: round_even_def power_int_minus)+


lemma round_float_29_25: "round_float (117 / 4) = 117 / 4"
  by (subst round_float_eq [of 4]) (simp_all add: round_even_def power_int_minus)


lemma round_float_tenth: "round_float (1 / 10) = one_tenth"
  unfolding one_tenth_def
  by (subst round_float_eq [of "- 4"]) (simp_all add: round_even_def power_int_minus)



lemma current_total_widget_3: "current_total [(s, n, 39 / 4, 3)] = 117 / 4"
  by (simp add: current_total_def float_add_def float_mul_def float_of_int_def
      round_float_3 round_float_29_25)


lemma current_total_widget_minus_1: "current_total [(s, n, 39 / 4, - 1)] = - (39 / 4)"
  by (simp add: current_total_def float_add_def float_mul_def float_of_int_def
      round_float_minus_1 round_float_9_75)

lemma current_total_unit: "current_total [(s, n, 1, 1)] = 1"
  by (simp add: current_total_def float_add_def float_mul_def float_of_int_def round_float_1)



section \<open>The checkout loop\<close>

lemma find_unique:
  "distinct (map sku ps) \<Longrightarrow> find (\<lambda>p. sku p = s) ps = Some row \<Longrightarrow> p \<in> set ps \<Longrightarrow> sku p = s \<Longrightarrow> p = row"
  by (induction ps) (auto split: if_splits simp: rev_image_eqI)

lemma sku_decrement [simp]: "sku (decrement s q p) = sku p"
  by (simp add: decrement_def)

lemma find_decrement:
  "find (\<lambda>p. sku p = s') (map (decrement s q) ps) = map_option (decrement s q) (find (\<lambda>p. sku p = s') ps)"
  by (induction ps) auto

lemma find_sku:
  "find (\<lambda>p. sku p = s) ps = Some row \<Longrightarrow> sku row = s \<and> row \<in> set ps"
  by (induction ps) (auto split: if_splits)

lemma sold_Nil [simp]: "sold s [] = 0"
  by (simp add: sold_def)

lemma sold_Cons [simp]: "sold s ((s', n, p, q) # its) = (if s' = s then q else 0) + sold s its"
  by (simp add: sold_def)

lemma sufficient_stock_all: "sufficient_stock d its \<longleftrightarrow> (\<forall>k<length its. covered d its k)"
  by (auto simp: sufficient_stock_def list_all_iff)

lemma covered_0:
  "covered d ((s, n, p, q) # its) 0 \<longleftrightarrow> (\<exists>row. select_product d s = Some row \<and> q \<le> quantity row)"
  by (auto simp: covered_def split: option.splits)

lemma covered_Suc:
  assumes "products d2 = map (decrement s q) (products d)"
  shows "covered d ((s, n, p, q) # its) (Suc k) \<longleftrightarrow> covered d2 its k"
proof -
  obtain s' n' p' q' where it: "its ! k = (s', n', p', q')"
    by (cases "its ! k") auto
  show ?thesis
    using assms
    by (auto simp: covered_def it select_product_def find_decrement decrement_def
             split: option.splits dest: find_sku)
qed

lemma sufficient_stock_Cons:
  assumes "products d2 = map (decrement s q) (products d)"
  shows "sufficient_stock d ((s, n, p, q) # its) \<longleftrightarrow>
         (\<exists>row. select_product d s = Some row \<and> q \<le> quantity row) \<and> sufficient_stock d2 its"
proof -
  have "sufficient_stock d ((s, n, p, q) # its) \<longleftrightarrow>
        covered d ((s, n, p, q) # its) 0 \<and> (\<forall>k<length its. covered d ((s, n, p, q) # its) (Suc k))"
    unfolding sufficient_stock_all
    by (auto simp: less_Suc_eq_0_disj)
  then show ?thesis
    by (simp add: covered_0 covered_Suc [OF assms] sufficient_stock_all)
qed

lemma insert_transaction_item_Inr:
  assumes "list_ex (\<lambda>t. transaction_id t = tid) (transactions d)"
    and "select_product d s = Some row"
  shows "\<exists>d1. insert_transaction_item d tid s q p = Inr d1 \<and> products d1 = products d \<and>
           transactions d1 = transactions d \<and> transactions_seq d1 = transactions_seq d \<and>
           map line_of (transaction_items d1) = map line_of (transaction_items d) @ [(tid, s, q, p)]"
proof -
  from assms(2) have "list_ex (\<lambda>pr. sku pr = s) (products d)"
    by (auto simp: select_product_def list_ex_iff dest: find_sku)
  with assms(1) show ?thesis
    by (simp add: insert_transaction_item_def Let_def line_of_def)
qed

lemma insert_transaction_item_fields:
  assumes "insert_transaction_item d tid s q p = Inr d1"
  shows "products d1 = products d \<and> transactions d1 = transactions d \<and>
         transactions_seq d1 = transactions_seq d \<and>
         map line_of (transaction_items d1) = map line_of (transaction_items d) @ [(tid, s, q, p)]"
  using assms
  by (auto simp: insert_transaction_item_def Let_def line_of_def split: if_splits)

lemma update_stock_fields:
  assumes "update_stock d s q = Inr d2"
  shows "products d2 = map (decrement s q) (products d) \<and> transactions d2 = transactions d \<and>
         transactions_seq d2 = transactions_seq d \<and> transaction_items d2 = transaction_items d"
  using assms by (auto simp: update_stock_def split: if_splits)

lemma update_stock_Inr:
  assumes "distinct (map sku (products d))" and "select_product d s = Some row"
    and "q \<le> quantity row"
  shows "\<exists>d2. update_stock d s q = Inr d2"
proof -
  have "0 \<le> quantity p - q" if "p \<in> set (products d)" "sku p = s" for p
    using find_unique [OF assms(1) assms(2) [unfolded select_product_def] that] assms(3)
    by simp
  then show ?thesis
    by (simp add: update_stock_def list_all_iff)
qed

lemma sku_comp_decrement [simp]: "sku \<circ> decrement s q = sku"
  by (rule ext) simp

lemma sale_step:
  assumes "distinct (map sku (products d))"
    and "list_ex (\<lambda>t. transaction_id t = tid) (transactions d)"
    and "select_product d s = Some row" and "q \<le> quantity row"
  shows "\<exists>d1 d2. insert_transaction_item d tid s q p = Inr d1 \<and> update_stock d1 s q = Inr d2"
proof -
  obtain d1 where d1: "insert_transaction_item d tid s q p = Inr d1" "products d1 = products d"
    using insert_transaction_item_Inr [OF assms(2,3)] by blast
  have "select_product d1 s = Some row"
    using assms(3) d1(2) by (simp add: select_product_def)
  moreover have "distinct (map sku (products d1))"
    using assms(1) d1(2) by simp
  ultimately obtain d2 where "update_stock d1 s q = Inr d2"
    using update_stock_Inr assms(4) by blast
  with d1(1) show ?thesis by blast
qed

lemma sold_all_Cons:
  "map (\<lambda>p. p\<lparr>quantity := quantity p - sold (sku p) its\<rparr>) (map (decrement s q) ps) =
   map (\<lambda>p. p\<lparr>quantity := quantity p - sold (sku p) ((s, n, pr, q) # its)\<rparr>) ps"
  by (induction ps) (auto simp: decrement_def)

lemma sale_items_fields:
  "sale_items d tid its = Inr d' \<Longrightarrow>
     products d' = map (\<lambda>p. p\<lparr>quantity := quantity p - sold (sku p) its\<rparr>) (products d) \<and>
     transactions d' = transactions d \<and> transactions_seq d' = transactions_seq d \<and>
     map line_of (transaction_items d') = map line_of (transaction_items d) @ map (sold_line tid) its"
proof (induction d tid its rule: sale_items.induct)
  case (1 d tid)
  then show ?case by (simp add: map_idI)
next
  case (2 d tid s n u q rest)
  from "2.prems" obtain row d1 d2 where
    row: "select_product d s = Some row" "\<not> quantity row < q" and
    d1: "insert_transaction_item d tid s q u = Inr d1" and
    d2: "update_stock d1 s q = Inr d2" and
    rest: "sale_items d2 tid rest = Inr d'"
    by (auto split: option.splits if_splits sum.splits)
  note ih = "2.IH" [OF row d1 d2 rest]
  note f1 = insert_transaction_item_fields [OF d1]
  note f2 = update_stock_fields [OF d2]
  have "products d' =
        map (\<lambda>p. p\<lparr>quantity := quantity p - sold (sku p) rest\<rparr>) (map (decrement s q) (products d))"
    using ih f1 f2 by simp
  then have "products d' =
        map (\<lambda>p. p\<lparr>quantity := quantity p - sold (sku p) ((s, n, u, q) # rest)\<rparr>) (products d)"
    by (simp only: sold_all_Cons)
  moreover have "map line_of (transaction_items d') =
      map line_of (transaction_items d) @ map (sold_line tid) ((s, n, u, q) # rest)"
    using ih f1 f2 by (simp add: sold_line_def)
  ultimately show ?case
    using ih f1 f2 by simp
qed


lemma sale_items_insufficient:
  "distinct (map sku (products d)) \<Longrightarrow> list_ex (\<lambda>t. transaction_id t = tid) (transactions d) \<Longrightarrow>
   \<not> sufficient_stock d its \<Longrightarrow>
   \<exists>n s l. sale_items d tid its = Inl (ValueError (Insufficient_stock n s l))"
proof (induction its arbitrary: d)
  case Nil
  then show ?case by (simp add: sufficient_stock_def)
next
  case (Cons it rest)
  obtain s n p q where it: "it = (s, n, p, q)"
    by (cases it) auto
  have insuff: "\<not> sufficient_stock d ((s, n, p, q) # rest)"
    using Cons.prems(3) it by simp
  show ?case
  proof (cases "select_product d s")
    case None
    then show ?thesis by (simp add: it)
  next
    case (Some row)
    show ?thesis
    proof (cases "quantity row < q")
      case True
      then show ?thesis using Some by (simp add: it)
    next
      case False
      then have le: "q \<le> quantity row" by simp
      obtain d1 d2 where d1: "insert_transaction_item d tid s q p = Inr d1"
        and d2: "update_stock d1 s q = Inr d2"
        using sale_step [OF Cons.prems(1,2) Some le] by blast
      note f1 = insert_transaction_item_fields [OF d1]
      note f2 = update_stock_fields [OF d2]
      have p2: "products d2 = map (decrement s q) (products d)"
        using f1 f2 by simp
      have "\<not> sufficient_stock d2 rest"
        using insuff sufficient_stock_Cons [OF p2] Some le by blast
      moreover have "distinct (map sku (products d2))"
        using Cons.prems(1) p2 by simp
      moreover have "list_ex (\<lambda>t. transaction_id t = tid) (transactions d2)"
        using Cons.prems(2) f1 f2 by simp
      ultimately obtain n' s' l where
        "sale_items d2 tid rest = Inl (ValueError (Insufficient_stock n' s' l))"
        using Cons.IH by blast
      then show ?thesis
        using it Some False d1 d2 by simp
    qed
  qed
qed

section \<open>Checkout as a whole\<close>



lemma insert_transaction_fields:
  assumes "insert_transaction d now a = (d1, tid)"
  shows "products d1 = products d" and "transaction_items d1 = transaction_items d"
    and "transaction_items_seq d1 = transaction_items_seq d"
    and "transactions d1 = transactions d @ [\<lparr>transaction_id = tid, timestamp = now, total_amount = a\<rparr>]"
    and "tid = next_rowid (transactions_seq d) (map transaction_id (transactions d))"
    and "transactions_seq d1 = tid"
  using assms by (auto simp: insert_transaction_def Let_def)


lemma sufficient_stock_products:
  "products d1 = products d \<Longrightarrow> sufficient_stock d1 its = sufficient_stock d its"
proof -
  assume "products d1 = products d"
  then have "covered d1 its = covered d its"
    by (intro ext) (simp add: covered_def select_product_def)
  then show ?thesis
    by (simp add: sufficient_stock_def)
qed


lemma process_sale_insufficient:
  assumes "distinct (map sku (products d))" and "its \<noteq> []" and "\<not> sufficient_stock d its"
  shows "\<exists>n s l. process_sale d now its = (Inl (ValueError (Insufficient_stock n s l)), d)"
proof -
  obtain d1 tid where ins: "insert_transaction d now (current_total its) = (d1, tid)"
    by (cases "insert_transaction d now (current_total its)") auto
  note f = insert_transaction_fields [OF ins]
  have "distinct (map sku (products d1))"
    using assms(1) f(1) by simp
  moreover have "list_ex (\<lambda>t. transaction_id t = tid) (transactions d1)"
    using f(4) by simp
  moreover have "\<not> sufficient_stock d1 its"
    using assms(3) sufficient_stock_products [OF f(1)] by simp
  ultimately obtain n s l where "sale_items d1 tid its = Inl (ValueError (Insufficient_stock n s l))"
    using sale_items_insufficient by blast
  then show ?thesis
    using assms(2) ins by (auto simp: process_sale_def)
qed

lemma sold_take_Suc:
  assumes "k < length its" and "its ! k = (s, n, u, q)"
  shows "sold s' (take (Suc k) its) = sold s' (take k its) + (if s = s' then q else 0)"
  using assms by (simp add: take_Suc_conv_app_nth sold_def)

lemma sale_items_unknown_first:
  "distinct (map sku (products d)) \<Longrightarrow> list_ex (\<lambda>t. transaction_id t = tid) (transactions d) \<Longrightarrow>
   sufficient_stock d pre \<Longrightarrow> select_product d s = None \<Longrightarrow>
   sale_items d tid (pre @ (s, n, u, q) # post) = Inl (ValueError (Insufficient_stock n s 0))"
proof (induction pre arbitrary: d)
  case Nil
  then show ?case by simp
next
  case (Cons it rest)
  obtain s0 n0 u0 q0 where it: "it = (s0, n0, u0, q0)"
    by (cases it) auto
  have suff: "sufficient_stock d ((s0, n0, u0, q0) # rest)"
    using Cons.prems(3) it by simp
  define d0 where "d0 = d\<lparr>products := map (decrement s0 q0) (products d)\<rparr>"
  then have d0: "products d0 = map (decrement s0 q0) (products d)"
    by simp
  from suff obtain row where row: "select_product d s0 = Some row" "q0 \<le> quantity row"
    using sufficient_stock_Cons [OF d0] by blast
  obtain d1 d2 where d1: "insert_transaction_item d tid s0 q0 u0 = Inr d1"
    and d2: "update_stock d1 s0 q0 = Inr d2"
    using sale_step [OF Cons.prems(1,2) row] by blast
  note f1 = insert_transaction_item_fields [OF d1]
  note f2 = update_stock_fields [OF d2]
  have p2: "products d2 = map (decrement s0 q0) (products d)"
    using f1 f2 by simp
  have "sufficient_stock d2 rest"
    using suff sufficient_stock_Cons [OF p2] by blast
  moreover have "distinct (map sku (products d2))"
    using Cons.prems(1) p2 by simp
  moreover have "list_ex (\<lambda>t. transaction_id t = tid) (transactions d2)"
    using Cons.prems(2) f1 f2 by simp
  moreover have "select_product d2 s = None"
    using Cons.prems(4) p2 by (simp add: select_product_def find_decrement)
  ultimately have "sale_items d2 tid (rest @ (s, n, u, q) # post) =
      Inl (ValueError (Insufficient_stock n s 0))"
    using Cons.IH by blast
  then show ?case
    using it row d1 d2 by simp
qed

lemma not_sufficient_stockI: "k < length its \<Longrightarrow> \<not> covered d its k \<Longrightarrow> \<not> sufficient_stock d its"
  by (auto simp: sufficient_stock_all)




text \<open>
  C1. When some item of the bill asks for more than the stock its product has left when
  the loop re-reads it (the stock on hand less what the earlier items of the bill took),
  the call raises the insufficient-stock \<^verbatim>\<open>ValueError\<close> and the store is the one the call
  started from: no quantity changed, no transaction row, no line item.
\<close>

theorem process_sale_shortfall:
  assumes "products_ok d" and "k < length bill_items"
    and "bill_items ! k = (s, n, unit_price, qty_sold)"
    and "select_product d s = Some row"
    and "quantity row - sold s (take k bill_items) < qty_sold"
  shows "\<exists>n' s' left. process_sale d now bill_items =
           (Inl (ValueError (Insufficient_stock n' s' left)), d)"
proof -
  have "\<not> covered d bill_items k"
    using assms(3,4,5) sold_take_Suc [OF assms(2,3), of s]
    by (simp add: covered_def)
  then have "\<not> sufficient_stock d bill_items"
    using assms(2) by (rule not_sufficient_stockI [rotated])
  moreover have "bill_items \<noteq> []"
    using assms(2) by auto
  moreover have "distinct (map sku (products d))"
    using assms(1) by (simp add: products_ok_def)
  ultimately show ?thesis
    using process_sale_insufficient by blast
qed

theorem process_sale_shortfall_witness:
  "products_ok (widget_store 2) \<and> (0::nat) < length [(''SKU1'', ''Widget'', 9.75::real, 3::int)] \<and>
   [(''SKU1'', ''Widget'', 9.75::real, 3::int)] ! 0 = (''SKU1'', ''Widget'', 9.75, 3) \<and>
   select_product (widget_store 2) ''SKU1'' =
     Some \<lparr>sku = ''SKU1'', name = ''Widget'', price = 9.75, quantity = 2\<rparr> \<and>
   (\<exists>n' s' left. process_sale (widget_store 2) ''2024-01-01 00:00:00'' [(''SKU1'', ''Widget'', 9.75, 3)] =
      (Inl (ValueError (Insufficient_stock n' s' left)), widget_store 2))"
proof -
  have h1: "products_ok (widget_store 2)"
    by (simp add: products_ok_def widget_store_def)
  have h2: "(0::nat) < length [(''SKU1'', ''Widget'', 9.75::real, 3::int)]"
    by simp
  have h3: "[(''SKU1'', ''Widget'', 9.75::real, 3::int)] ! 0 = (''SKU1'', ''Widget'', 9.75, 3)"
    by simp
  have h4: "select_product (widget_store 2) ''SKU1'' =
      Some \<lparr>sku = ''SKU1'', name = ''Widget'', price = 9.75, quantity = 2\<rparr>"
    by (simp add: select_product_def widget_store_def)
  have h5: "quantity \<lparr>sku = ''SKU1'', name = ''Widget'', price = 9.75, quantity = 2\<rparr>
      - sold ''SKU1'' (take 0 [(''SKU1'', ''Widget'', 9.75::real, 3::int)]) < 3"
    by (simp add: sold_def)
  show ?thesis
    using h1 h2 h3 h4 process_sale_shortfall [OF h1 h2 h3 h4 h5]
    by simp
qed

text \<open>
  C10. A bill with an item whose sku is in no product row is refused with the same
  insufficient-stock \<^verbatim>\<open>ValueError\<close>, and the store is the one the call started from.
  When the items before it are covered, the error names that item and reports 0 left.
\<close>

theorem process_sale_unknown_sku:
  assumes "products_ok d" and "bill_items = pre @ (s, n, unit_price, qty_sold) # post"
    and "select_product d s = None"
  shows "\<exists>n' s' left. process_sale d now bill_items =
           (Inl (ValueError (Insufficient_stock n' s' left)), d) \<and>
           (sufficient_stock d pre \<longrightarrow> n' = n \<and> s' = s \<and> left = 0)"
proof (cases "sufficient_stock d pre")
  case True
  have dist: "distinct (map sku (products d))"
    using assms(1) by (simp add: products_ok_def)
  obtain d1 tid where ins: "insert_transaction d now (current_total bill_items) = (d1, tid)"
    by (cases "insert_transaction d now (current_total bill_items)") auto
  note f = insert_transaction_fields [OF ins]
  have "sale_items d1 tid (pre @ (s, n, unit_price, qty_sold) # post) =
      Inl (ValueError (Insufficient_stock n s 0))"
  proof (rule sale_items_unknown_first)
    show "distinct (map sku (products d1))" using dist f(1) by simp
    show "list_ex (\<lambda>t. transaction_id t = tid) (transactions d1)" using f(4) by simp
    show "sufficient_stock d1 pre" using True sufficient_stock_products [OF f(1)] by simp
    show "select_product d1 s = None" using assms(3) f(1) by (simp add: select_product_def)
  qed
  then have "process_sale d now bill_items = (Inl (ValueError (Insufficient_stock n s 0)), d)"
    using assms(2) ins by (simp add: process_sale_def)
  then show ?thesis by blast
next
  case False
  have "\<not> covered d bill_items (length pre)"
    using assms(2,3) by (simp add: covered_def)
  then have "\<not> sufficient_stock d bill_items"
    using assms(2) by (intro not_sufficient_stockI [of "length pre"]) auto
  moreover have "bill_items \<noteq> []"
    using assms(2) by auto
  moreover have "distinct (map sku (products d))"
    using assms(1) by (simp add: products_ok_def)
  ultimately show ?thesis
    using process_sale_insufficient False by blast
qed

theorem process_sale_unknown_sku_witness:
  "products_ok (widget_store 5) \<and> select_product (widget_store 5) ''NOPE'' = None \<and>
   sufficient_stock (widget_store 5) [(''SKU1'', ''Widget'', 9.75, 3)] \<and>
   process_sale (widget_store 5) ''2024-01-01 00:00:00''
     [(''SKU1'', ''Widget'', 9.75, 3), (''NOPE'', ''Ghost'', 1, 1)] =
     (Inl (ValueError (Insufficient_stock ''Ghost'' ''NOPE'' 0)), widget_store 5)"
proof -
  have h1: "products_ok (widget_store 5)"
    by (simp add: products_ok_def widget_store_def)
  have h2: "[(''SKU1'', ''Widget'', 9.75::real, 3::int), (''NOPE'', ''Ghost'', 1, 1)] =
      [(''SKU1'', ''Widget'', 9.75, 3)] @ (''NOPE'', ''Ghost'', 1, 1) # []"
    by simp
  have h3: "select_product (widget_store 5) ''NOPE'' = None"
    by (simp add: select_product_def widget_store_def)
  have h4: "sufficient_stock (widget_store 5) [(''SKU1'', ''Widget'', 9.75, 3)]"
    by (simp add: sufficient_stock_def covered_def select_product_def widget_store_def sold_def)
  show ?thesis
    using h1 h3 h4 process_sale_unknown_sku [OF h1 h2 h3, of "''2024-01-01 00:00:00''"]
    by auto
qed

section \<open>The constraints of the products table are kept\<close>

lemma products_ok_insert_product:
  "products_ok d \<Longrightarrow> insert_product d p = Inr d' \<Longrightarrow> products_ok d'"
  by (auto simp: products_ok_def insert_product_def split: if_splits)

lemma products_ok_add_product:
  "products_ok d \<Longrightarrow> products_ok (snd (add_product d s n p q))"
  by (auto simp: add_product_def dest: products_ok_insert_product
           split: sum.splits exn.splits)

lemma products_ok_delete_product:
  "products_ok d \<Longrightarrow> delete_product d s = Inr (d', c) \<Longrightarrow> products_ok d'"
  by (auto simp: products_ok_def delete_product_def distinct_map_filter list_all_iff
           split: if_splits)

lemma remove_product_try_cases:
  "snd (remove_product_try d s) = d \<or> (\<exists>c. delete_product d s = Inr (snd (remove_product_try d s), c))"
  by (auto simp: remove_product_try_def split: option.splits sum.splits)

lemma snd_remove_product: "snd (remove_product d s) = (if s = [] then d else snd (remove_product_try d s))"
  by (auto simp: remove_product_def split: prod.splits sum.splits exn.splits)

lemma products_ok_remove_product:
  "products_ok d \<Longrightarrow> products_ok (snd (remove_product d s))"
  using remove_product_try_cases [of d s]
  by (auto simp: snd_remove_product dest: products_ok_delete_product)

lemma products_ok_update_stock:
  assumes "products_ok d" and "update_stock d s q = Inr d'"
  shows "products_ok d'"
proof -
  from assms(2) have chk: "list_all (\<lambda>p. sku p = s \<longrightarrow> 0 \<le> quantity p - q) (products d)"
    and p': "products d' = map (decrement s q) (products d)"
    by (auto simp: update_stock_def split: if_splits)
  have "0 \<le> price (decrement s q p) \<and> 0 \<le> quantity (decrement s q p)"
    if "p \<in> set (products d)" for p
    using that assms(1) chk by (auto simp: products_ok_def list_all_iff decrement_def)
  then show ?thesis
    using assms(1) p' by (simp add: products_ok_def list_all_iff)
qed

lemma products_ok_cong: "products d' = products d \<Longrightarrow> products_ok d' = products_ok d"
  by (simp add: products_ok_def)

lemma products_ok_sale_items:
  "products_ok d \<Longrightarrow> sale_items d tid its = Inr d' \<Longrightarrow> products_ok d'"
proof (induction d tid its rule: sale_items.induct)
  case (1 d tid)
  then show ?case by simp
next
  case (2 d tid s n u q rest)
  from "2.prems"(2) obtain row d1 d2 where
    row: "select_product d s = Some row" "\<not> quantity row < q" and
    d1: "insert_transaction_item d tid s q u = Inr d1" and
    d2: "update_stock d1 s q = Inr d2" and
    rest: "sale_items d2 tid rest = Inr d'"
    by (auto split: option.splits if_splits sum.splits)
  have "products_ok d1"
    using "2.prems"(1) insert_transaction_item_fields [OF d1] products_ok_cong by blast
  then have "products_ok d2"
    using d2 by (rule products_ok_update_stock)
  then show ?case
    using "2.IH" [OF row d1 d2 _ rest] by simp
qed

lemma products_ok_process_sale:
  assumes "products_ok d"
  shows "products_ok (snd (process_sale d now its))"
proof (cases "its = []")
  case True
  then show ?thesis using assms by (simp add: process_sale_def)
next
  case False
  obtain d1 tid where ins: "insert_transaction d now (current_total its) = (d1, tid)"
    by (cases "insert_transaction d now (current_total its)") auto
  have ok1: "products_ok d1"
    using assms insert_transaction_fields(1) [OF ins] products_ok_cong by blast
  show ?thesis
  proof (cases "sale_items d1 tid its")
    case (Inl e)
    then show ?thesis
      using assms False ins by (cases e) (simp_all add: process_sale_def)
  next
    case (Inr d2)
    then show ?thesis
      using products_ok_sale_items [OF ok1 Inr] False ins by (simp add: process_sale_def)
  qed
qed

text \<open>
  C3. The empty store satisfies the constraints of the products table (price and quantity
  non-negative, sku unique), and whatever \<^verbatim>\<open>add_product\<close>, \<^verbatim>\<open>remove_product\<close> and
  \<^verbatim>\<open>process_sale\<close> are called with, and whether they succeed or raise, the store they
  leave satisfies them again.
\<close>

theorem products_ok_invariant:
  "products_ok init_db \<and>
   (products_ok d \<longrightarrow>
      products_ok (snd (add_product d s n p q)) \<and>
      products_ok (snd (remove_product d s')) \<and>
      products_ok (snd (process_sale d now bill_items)))"
  using products_ok_add_product products_ok_remove_product products_ok_process_sale
  by (simp add: products_ok_def init_db_def)

theorem products_ok_invariant_witness:
  "products_ok (widget_store 5) \<and>
   products_ok (snd (add_product (widget_store 5) ''sku2'' ''Gadget'' 1.5 7)) \<and>
   products_ok (snd (remove_product (widget_store 5) ''SKU1'')) \<and>
   products_ok (snd (process_sale (widget_store 5) ''2024-01-01 00:00:00'' [(''SKU1'', ''Widget'', 9.75, 3)])) \<and>
   products (snd (process_sale (widget_store 5) ''2024-01-01 00:00:00'' [(''SKU1'', ''Widget'', 9.75, 3)])) =
     [\<lparr>sku = ''SKU1'', name = ''Widget'', price = 9.75, quantity = 2\<rparr>]"
proof -
  have h: "products_ok (widget_store 5)"
    by (simp add: products_ok_def widget_store_def)
  have e: "products (snd (process_sale (widget_store 5) ''2024-01-01 00:00:00'' [(''SKU1'', ''Widget'', 9.75, 3)])) =
     [\<lparr>sku = ''SKU1'', name = ''Widget'', price = 9.75, quantity = 2\<rparr>]"
    by (simp add: process_sale_def widget_store_def insert_transaction_def next_rowid_def
        current_total_widget_3 select_product_def insert_transaction_item_def update_stock_def
        decrement_def Let_def)
  show ?thesis
    using h e products_ok_invariant [where d = "widget_store 5" and s = "''sku2''" and n = "''Gadget''"
        and p = "1.5" and q = 7 and s' = "''SKU1''" and now = "''2024-01-01 00:00:00''"
        and bill_items = "[(''SKU1'', ''Widget'', 9.75, 3)]"]
    by simp
qed

section \<open>What a sale records\<close>

lemma process_sale_InrD:
  assumes "process_sale d now its = (Inr tid, d')"
  shows "its \<noteq> [] \<and> (\<exists>d1. insert_transaction d now (current_total its) = (d1, tid) \<and>
           sale_items d1 tid its = Inr d')"
  using assms
  by (auto simp: process_sale_def split: if_splits prod.splits sum.splits exn.splits)

lemma process_sale_records:
  assumes "process_sale d now its = (Inr tid, d')"
  shows "transactions d' = transactions d @
           [\<lparr>transaction_id = tid, timestamp = now, total_amount = current_total its\<rparr>]"
    and "map line_of (drop (length (transaction_items d)) (transaction_items d')) =
           map (sold_line tid) its"
proof -
  from process_sale_InrD [OF assms] obtain d1 where
    ins: "insert_transaction d now (current_total its) = (d1, tid)" and
    loop: "sale_items d1 tid its = Inr d'"
    by blast
  note f = insert_transaction_fields [OF ins]
  note g = sale_items_fields [OF loop]
  show "transactions d' = transactions d @
           [\<lparr>transaction_id = tid, timestamp = now, total_amount = current_total its\<rparr>]"
    using f g by simp
  have "map line_of (transaction_items d') =
      map line_of (transaction_items d) @ map (sold_line tid) its"
    using f g by simp
  then have "drop (length (transaction_items d)) (map line_of (transaction_items d')) =
      map (sold_line tid) its"
    by simp
  then show "map line_of (drop (length (transaction_items d)) (transaction_items d')) =
           map (sold_line tid) its"
    by (simp add: drop_map)
qed

lemma foldl_float_add_nonneg:
  "0 \<le> a \<Longrightarrow> list_all (\<lambda>x. 0 \<le> x) xs \<Longrightarrow> 0 \<le> foldl float_add a xs"
  by (induction xs arbitrary: a) (simp_all add: float_add_nonneg)

lemma current_total_nonneg:
  assumes "list_all (\<lambda>(s, n, unit_price, qty_sold). 0 < qty_sold \<and> 0 \<le> unit_price) its"
  shows "0 \<le> current_total its"
proof -
  have "0 \<le> (case x of (s, n, unit_price, qty_sold) \<Rightarrow> float_mul unit_price (float_of_int qty_sold))"
    if "x \<in> set its" for x
    using that assms by (auto simp: list_all_iff intro!: float_mul_nonneg float_of_int_nonneg)
  then show ?thesis
    unfolding current_total_def
    by (intro foldl_float_add_nonneg) (auto simp: list_all_iff)
qed

text \<open>
  C7, as the code has it. \<^verbatim>\<open>process_sale\<close> checks neither the sign of a quantity nor of
  a price; the interface does before it builds the bill. For a bill whose every item has a
  positive quantity and a non-negative price, every line item an accepted sale creates has a
  positive \<^verbatim>\<open>quantity_sold\<close> and a non-negative \<^verbatim>\<open>price_at_sale\<close>, and the total of the
  created transaction is non-negative.
\<close>

theorem process_sale_records_ok:
  assumes "process_sale d now bill_items = (Inr tid, d')"
    and "list_all (\<lambda>(s, n, unit_price, qty_sold). 0 < qty_sold \<and> 0 \<le> unit_price) bill_items"
  shows "sale_records_ok d d'"
proof -
  note r = process_sale_records [OF assms(1)]
  have "0 < quantity_sold ti \<and> 0 \<le> price_at_sale ti"
    if "ti \<in> set (drop (length (transaction_items d)) (transaction_items d'))" for ti
  proof -
    from that have "line_of ti \<in> set (map (sold_line tid) bill_items)"
      using r(2) by (metis image_eqI set_map)
    then obtain s n u q where "(s, n, u, q) \<in> set bill_items" "line_of ti = (tid, s, q, u)"
      by (auto simp: sold_line_def)
    then show ?thesis
      using assms(2) by (auto simp: list_all_iff line_of_def)
  qed
  moreover have "0 \<le> current_total bill_items"
    using assms(2) by (rule current_total_nonneg)
  ultimately show ?thesis
    using r(1) by (simp add: sale_records_ok_def list_all_iff)
qed

theorem process_sale_records_ok_witness:
  "process_sale (widget_store 5) ''2024-01-01 00:00:00'' [(''SKU1'', ''Widget'', 9.75, 3)] =
     (Inr 1, \<lparr>products = [\<lparr>sku = ''SKU1'', name = ''Widget'', price = 9.75, quantity = 2\<rparr>],
              transactions = [\<lparr>transaction_id = 1, timestamp = ''2024-01-01 00:00:00'', total_amount = 29.25\<rparr>],
              transaction_items = [\<lparr>item_id = 1, item_transaction_id = 1, product_sku = ''SKU1'',
                                     quantity_sold = 3, price_at_sale = 9.75\<rparr>],
              transactions_seq = 1, transaction_items_seq = 1\<rparr>) \<and>
   sale_records_ok (widget_store 5)
     \<lparr>products = [\<lparr>sku = ''SKU1'', name = ''Widget'', price = 9.75, quantity = 2\<rparr>],
      transactions = [\<lparr>transaction_id = 1, timestamp = ''2024-01-01 00:00:00'', total_amount = 29.25\<rparr>],
      transaction_items = [\<lparr>item_id = 1, item_transaction_id = 1, product_sku = ''SKU1'',
                             quantity_sold = 3, price_at_sale = 9.75\<rparr>],
      transactions_seq = 1, transaction_items_seq = 1\<rparr>"
proof -
  have h1: "process_sale (widget_store 5) ''2024-01-01 00:00:00'' [(''SKU1'', ''Widget'', 9.75, 3)] =
     (Inr 1, \<lparr>products = [\<lparr>sku = ''SKU1'', name = ''Widget'', price = 9.75, quantity = 2\<rparr>],
              transactions = [\<lparr>transaction_id = 1, timestamp = ''2024-01-01 00:00:00'', total_amount = 29.25\<rparr>],
              transaction_items = [\<lparr>item_id = 1, item_transaction_id = 1, product_sku = ''SKU1'',
                                     quantity_sold = 3, price_at_sale = 9.75\<rparr>],
              transactions_seq = 1, transaction_items_seq = 1\<rparr>)"
    by (simp add: process_sale_def widget_store_def insert_transaction_def next_rowid_def
        current_total_widget_3 select_product_def insert_transaction_item_def update_stock_def
        decrement_def Let_def)
  have h2: "list_all (\<lambda>(s, n, unit_price, qty_sold). 0 < qty_sold \<and> 0 \<le> unit_price)
      [(''SKU1'', ''Widget'', 9.75::real, 3::int)]"
    by simp
  show ?thesis
    using h1 process_sale_records_ok [OF h1 h2] by simp
qed

theorem process_sale_records_counterexample:
  "process_sale (widget_store 5) ''2024-01-01 00:00:00'' [(''SKU1'', ''Widget'', 9.75, - 1)] =
     (Inr 1, \<lparr>products = [\<lparr>sku = ''SKU1'', name = ''Widget'', price = 9.75, quantity = 6\<rparr>],
              transactions = [\<lparr>transaction_id = 1, timestamp = ''2024-01-01 00:00:00'', total_amount = - 9.75\<rparr>],
              transaction_items = [\<lparr>item_id = 1, item_transaction_id = 1, product_sku = ''SKU1'',
                                     quantity_sold = - 1, price_at_sale = 9.75\<rparr>],
              transactions_seq = 1, transaction_items_seq = 1\<rparr>) \<and>
   \<not> sale_records_ok (widget_store 5)
     (snd (process_sale (widget_store 5) ''2024-01-01 00:00:00'' [(''SKU1'', ''Widget'', 9.75, - 1)]))"
  by (simp add: process_sale_def widget_store_def insert_transaction_def next_rowid_def
      current_total_widget_minus_1 select_product_def insert_transaction_item_def update_stock_def
      decrement_def Let_def sale_records_ok_def)

section \<open>Removing a product\<close>

lemma select_product_None_iff:
  "select_product d s = None \<longleftrightarrow> \<not> list_ex (\<lambda>p. sku p = s) (products d)"
  by (auto simp: select_product_def find_None_iff list_ex_iff)

lemma remove_product_not_found:
  assumes "s \<noteq> []" and "select_product d s = None"
  shows "remove_product d s =
    (Inl (RuntimeError (Database_error_removing_product (Product_not_found s))), d)"
  using assms by (simp add: remove_product_def remove_product_try_def)

lemma remove_product_referenced:
  assumes "s \<noteq> []" and "select_product d s = Some row"
    and "list_ex (\<lambda>ti. product_sku ti = s) (transaction_items d)"
  shows "remove_product d s =
    (Inl (ValueError (Cannot_remove_part_of_past_transactions s FOREIGN_KEY_constraint_failed)), d)"
proof -
  have "list_ex (\<lambda>p. sku p = s) (products d)"
    using assms(2) select_product_None_iff [of d s] by simp
  then have "delete_product d s = Inl (IntegrityError FOREIGN_KEY_constraint_failed)"
    using assms(3) by (simp add: delete_product_def)
  then show ?thesis
    using assms(1,2) by (simp add: remove_product_def remove_product_try_def)
qed

lemma remove_product_unreferenced:
  assumes "s \<noteq> []" and "select_product d s = Some row"
    and "\<not> list_ex (\<lambda>ti. product_sku ti = s) (transaction_items d)"
  shows "remove_product d s = (Inr (name row), d\<lparr>products := filter (\<lambda>p. sku p \<noteq> s) (products d)\<rparr>)"
proof -
  have "row \<in> set (products d)" "sku row = s"
    using assms(2) find_sku [of s "products d" row] by (simp_all add: select_product_def)
  then have "filter (\<lambda>p. sku p = s) (products d) \<noteq> []"
    by (auto simp: filter_empty_conv)
  then show ?thesis
    using assms by (simp add: remove_product_def remove_product_try_def delete_product_def)
qed

section \<open>The foreign key of the line items is kept\<close>

lemma references_ok_add_product:
  "references_ok d \<Longrightarrow> references_ok (snd (add_product d s n p q))"
  by (auto simp: add_product_def insert_product_def references_ok_def list_all_iff list_ex_iff
           split: sum.splits exn.splits if_splits)

lemma references_ok_remove_product:
  assumes "references_ok d"
  shows "references_ok (snd (remove_product d s))"
proof (cases "s = []")
  case True
  then show ?thesis using assms by (simp add: remove_product_def)
next
  case False
  show ?thesis
  proof (cases "select_product d s")
    case None
    then show ?thesis using assms False by (simp add: remove_product_not_found)
  next
    case (Some row)
    show ?thesis
    proof (cases "list_ex (\<lambda>ti. product_sku ti = s) (transaction_items d)")
      case True
      then show ?thesis using assms False Some by (simp add: remove_product_referenced)
    next
      case unref: False
      have "references_ok (d\<lparr>products := filter (\<lambda>p. sku p \<noteq> s) (products d)\<rparr>)"
        using assms unref by (fastforce simp: references_ok_def list_all_iff list_ex_iff)
      then show ?thesis
        using False Some unref by (simp add: remove_product_unreferenced)
    qed
  qed
qed

lemma references_ok_insert_item:
  "references_ok d \<Longrightarrow> insert_transaction_item d tid s q u = Inr d1 \<Longrightarrow> references_ok d1"
  by (auto simp: insert_transaction_item_def references_ok_def Let_def split: if_splits)

lemma references_ok_update_stock:
  assumes "references_ok d" and "update_stock d s q = Inr d2"
  shows "references_ok d2"
proof -
  have "list_ex (\<lambda>p. sku p = x) (map (decrement s q) (products d)) =
        list_ex (\<lambda>p. sku p = x) (products d)" for x
    by (auto simp: list_ex_iff)
  then show ?thesis
    using assms update_stock_fields [OF assms(2)] by (simp add: references_ok_def)
qed

lemma references_ok_sale_items:
  "references_ok d \<Longrightarrow> sale_items d tid its = Inr d' \<Longrightarrow> references_ok d'"
proof (induction d tid its rule: sale_items.induct)
  case (1 d tid)
  then show ?case by simp
next
  case (2 d tid s n u q rest)
  from "2.prems"(2) obtain row d1 d2 where
    row: "select_product d s = Some row" "\<not> quantity row < q" and
    d1: "insert_transaction_item d tid s q u = Inr d1" and
    d2: "update_stock d1 s q = Inr d2" and
    rest: "sale_items d2 tid rest = Inr d'"
    by (auto split: option.splits if_splits sum.splits)
  have "references_ok d2"
    using "2.prems"(1) d1 d2 references_ok_insert_item references_ok_update_stock by blast
  then show ?case
    using "2.IH" [OF row d1 d2 _ rest] by simp
qed

lemma references_ok_process_sale:
  assumes "references_ok d"
  shows "references_ok (snd (process_sale d now its))"
proof (cases "its = []")
  case True
  then show ?thesis using assms by (simp add: process_sale_def)
next
  case False
  obtain d1 tid where ins: "insert_transaction d now (current_total its) = (d1, tid)"
    by (cases "insert_transaction d now (current_total its)") auto
  have ok1: "references_ok d1"
    using assms insert_transaction_fields(1,2) [OF ins] by (simp add: references_ok_def)
  show ?thesis
  proof (cases "sale_items d1 tid its")
    case (Inl e)
    then show ?thesis
      using assms False ins by (cases e) (simp_all add: process_sale_def)
  next
    case (Inr d2)
    then show ?thesis
      using references_ok_sale_items [OF ok1 Inr] False ins by (simp add: process_sale_def)
  qed
qed

lemma references_ok_init_db: "references_ok init_db"
  by (simp add: references_ok_def init_db_def)

lemma blank_sku_store_reached:
  "snd (process_sale (snd (add_product init_db ''  '' ''Widget'' 1 5)) ''2024-01-01 00:00:00''
         [([], ''Widget'', 1, 1)]) = blank_sku_store"
  by (simp add: process_sale_def add_product_def init_db_def insert_product_def str_strip_def
      str_upper_def isspace_def whitespace_def blank_sku_store_def insert_transaction_def
      next_rowid_def current_total_unit select_product_def insert_transaction_item_def
      update_stock_def decrement_def Let_def)

text \<open>
  In a store whose line items all reference existing products (the foreign key),
  \<^verbatim>\<open>remove_product\<close> on a non-empty sku that a line item references raises the
  \<^verbatim>\<open>ValueError\<close> for a product that is part of past transactions, and the store, with the
  product row, is as before. So it is for every referenced sku when no product row has the
  empty sku.
\<close>

lemma remove_product_restricted:
  assumes "references_ok d" and "s \<noteq> []" and "referenced d s"
  shows "remove_product d s =
    (Inl (ValueError (Cannot_remove_part_of_past_transactions s FOREIGN_KEY_constraint_failed)), d)"
proof -
  have ref: "list_ex (\<lambda>ti. product_sku ti = s) (transaction_items d)"
    using assms(3) by (simp add: referenced_def)
  with assms(1) have "list_ex (\<lambda>p. sku p = s) (products d)"
    by (auto simp: references_ok_def list_all_iff list_ex_iff)
  then obtain row where "select_product d s = Some row"
    using select_product_None_iff [of d s] by auto
  then show ?thesis
    using remove_product_referenced [OF assms(2) _ ref] by simp
qed

lemma remove_product_restricted_no_blank_sku:
  assumes "references_ok d" and "list_all (\<lambda>p. sku p \<noteq> []) (products d)" and "referenced d s"
  shows "remove_product d s =
    (Inl (ValueError (Cannot_remove_part_of_past_transactions s FOREIGN_KEY_constraint_failed)), d)"
proof -
  from assms(1,3) have "list_ex (\<lambda>p. sku p = s) (products d)"
    by (auto simp: references_ok_def referenced_def list_all_iff list_ex_iff)
  with assms(2) have "s \<noteq> []"
    by (auto simp: list_all_iff list_ex_iff)
  with assms(1,3) show ?thesis
    by (simp add: remove_product_restricted)
qed

lemma remove_product_sold_widget:
  "remove_product sold_widget_store ''SKU1'' =
     (Inl (ValueError (Cannot_remove_part_of_past_transactions ''SKU1'' FOREIGN_KEY_constraint_failed)),
      sold_widget_store)"
proof -
  have "references_ok sold_widget_store"
    by (simp add: references_ok_def sold_widget_store_def)
  moreover have "referenced sold_widget_store ''SKU1''"
    by (simp add: referenced_def sold_widget_store_def)
  ultimately show ?thesis
    by (simp add: remove_product_restricted)
qed

text \<open>
  C4. A product row with the empty sku comes into the store through \<^verbatim>\<open>add_product\<close> on a
  blank sku (C8) and can be sold. \<^verbatim>\<open>remove_product\<close> on that sku, which a line item
  references, stops at the guard on its argument: the caller gets the \<^verbatim>\<open>ValueError\<close> for
  an empty sku, not the one for a product that is part of past transactions. The product
  row remains.
\<close>

theorem remove_product_blank_sku:
  "snd (process_sale (snd (add_product init_db ''  '' ''Widget'' 1 5)) ''2024-01-01 00:00:00''
         [([], ''Widget'', 1, 1)]) = blank_sku_store \<and>
   references_ok blank_sku_store \<and> referenced blank_sku_store [] \<and>
   remove_product blank_sku_store [] = (Inl (ValueError SKU_cannot_be_empty), blank_sku_store)"
  using blank_sku_store_reached
  by (simp add: references_ok_def referenced_def blank_sku_store_def remove_product_def)

lemma sold_widget_store_reached:
  "snd (process_sale (widget_store 5) ''2024-01-01 00:00:00'' [(''SKU1'', ''Widget'', 9.75, 3)]) =
     sold_widget_store"
  by (simp add: process_sale_def widget_store_def sold_widget_store_def insert_transaction_def
      next_rowid_def current_total_widget_3 select_product_def insert_transaction_item_def
      update_stock_def decrement_def Let_def)

text \<open>
  C5. \<^verbatim>\<open>remove_product\<close> raises its not-found \<^verbatim>\<open>ValueError\<close> inside the \<^verbatim>\<open>try\<close> block,
  where \<^verbatim>\<open>except Exception\<close> catches it: for a sku that no product has, the caller gets
  the generic \<^verbatim>\<open>RuntimeError\<close> wrapping the not-found message. The store is unchanged.
\<close>

theorem remove_product_missing_sku:
  "select_product (widget_store 5) ''NOPE'' = None \<and>
   remove_product (widget_store 5) ''NOPE'' =
     (Inl (RuntimeError (Database_error_removing_product (Product_not_found ''NOPE''))),
      widget_store 5)"
  by (simp add: remove_product_def remove_product_try_def select_product_def widget_store_def)

section \<open>Looking up a transaction\<close>

lemma get_transaction_details_absent:
  assumes "find (\<lambda>t. transaction_id t = tid) (transactions d) = None"
  shows "get_transaction_details d tid =
    Inl (RuntimeError (Database_error_fetching_transaction_details (Transaction_ID_not_found tid)))"
  using assms by (simp add: get_transaction_details_def get_transaction_details_try_def)

lemma get_transaction_details_existing:
  assumes "find (\<lambda>t. transaction_id t = tid) (transactions d) = Some t"
  shows "get_transaction_details d tid =
    Inr ((transaction_id t, timestamp t, total_amount t), select_items d tid)"
  using assms by (simp add: get_transaction_details_def get_transaction_details_try_def)

lemma filter_sku_unique:
  "distinct (map sku ps) \<Longrightarrow> find (\<lambda>p. sku p = s) ps = Some row \<Longrightarrow>
   filter (\<lambda>p. s = sku p) ps = [row]"
proof (induction ps)
  case Nil
  then show ?case by simp
next
  case (Cons p ps)
  show ?case
  proof (cases "sku p = s")
    case True
    then have "filter (\<lambda>p. s = sku p) ps = []"
      using Cons.prems(1) by (auto simp: filter_empty_conv)
    then show ?thesis
      using True Cons.prems(2) by auto
  next
    case False
    then show ?thesis
      using Cons by auto
  qed
qed

text \<open>
  With the constraints of the schema in force the join yields one row per line item of the
  transaction, carrying the name the product has now and the quantity and price recorded at
  the sale.
\<close>

lemma select_items_join:
  assumes "products_ok d" and "references_ok d"
  shows "select_items d tid =
    map (\<lambda>ti. (quantity_sold ti, name (the (select_product d (product_sku ti))),
               product_sku ti, price_at_sale ti))
        (filter (\<lambda>ti. item_transaction_id ti = tid) (transaction_items d))"
proof -
  have dist: "distinct (map sku (products d))"
    using assms(1) by (simp add: products_ok_def)
  have one: "map (\<lambda>p. (quantity_sold ti, name p, product_sku ti, price_at_sale ti))
               (filter (\<lambda>p. product_sku ti = sku p) (products d)) =
             [(quantity_sold ti, name (the (select_product d (product_sku ti))),
               product_sku ti, price_at_sale ti)]"
    if "ti \<in> set (transaction_items d)" for ti
  proof -
    from that assms(2) have "list_ex (\<lambda>p. sku p = product_sku ti) (products d)"
      by (simp add: references_ok_def list_all_iff)
    then obtain row where row: "select_product d (product_sku ti) = Some row"
      using select_product_None_iff [of d "product_sku ti"] by auto
    then have "filter (\<lambda>p. product_sku ti = sku p) (products d) = [row]"
      using filter_sku_unique [OF dist] by (simp add: select_product_def)
    then show ?thesis
      using row by simp
  qed
  have "concat (map f xs) = map g xs" if "\<And>x. x \<in> set xs \<Longrightarrow> f x = [g x]"
    for f :: "transaction_item \<Rightarrow> (int \<times> string \<times> string \<times> real) list" and g xs
    using that by (induction xs) auto
  from this [of "filter (\<lambda>ti. item_transaction_id ti = tid) (transaction_items d)"] one
  show ?thesis
    unfolding select_items_def by simp
qed

lemma get_transaction_details_sold_widget:
  "get_transaction_details sold_widget_store 1 =
     Inr ((1, ''2024-01-01 00:00:00'', 29.25), [(3, ''Widget'', ''SKU1'', 9.75)])"
  by (simp add: get_transaction_details_def get_transaction_details_try_def select_items_def
      sold_widget_store_def)

text \<open>
  C6. \<^verbatim>\<open>get_transaction_details\<close> raises its not-found \<^verbatim>\<open>ValueError\<close> inside the
  \<^verbatim>\<open>try\<close> block whose only handler is \<^verbatim>\<open>except Exception\<close>: for an id that no
  transaction has, the caller gets the generic \<^verbatim>\<open>RuntimeError\<close> wrapping the not-found
  message.
\<close>

theorem get_transaction_details_missing_id:
  "find (\<lambda>t. transaction_id t = 2) (transactions sold_widget_store) = None \<and>
   get_transaction_details sold_widget_store 2 =
     Inl (RuntimeError (Database_error_fetching_transaction_details (Transaction_ID_not_found 2)))"
  by (simp add: get_transaction_details_def get_transaction_details_try_def sold_widget_store_def)

section \<open>Adding a product\<close>


lemma add_product_rejects_empty:
  "s = [] \<or> n = [] \<Longrightarrow>
   add_product d s n p q = (Inl (ValueError Missing_required_product_information), d)"
  by (simp add: add_product_def)

lemma add_product_rejects_negative:
  "s \<noteq> [] \<Longrightarrow> n \<noteq> [] \<Longrightarrow> p < 0 \<or> q < 0 \<Longrightarrow>
   add_product d s n p q = (Inl (ValueError Price_and_Quantity_cannot_be_negative), d)"
  by (simp add: add_product_def)

lemma add_product_duplicate:
  "s \<noteq> [] \<Longrightarrow> n \<noteq> [] \<Longrightarrow> 0 \<le> p \<Longrightarrow> 0 \<le> q \<Longrightarrow>
   list_ex (\<lambda>row. sku row = str_upper (str_strip s)) (products d) \<Longrightarrow>
   add_product d s n p q = (Inl (ValueError (SKU_already_exists s)), d)"
  by (force simp: add_product_def insert_product_def list_ex_iff)

text \<open>
  C8. \<^verbatim>\<open>add_product\<close> tests \<^verbatim>\<open>not sku or not name\<close> on the arguments as given and
  strips them afterwards: a sku of two spaces passes the test and the row is inserted with
  the empty sku.
\<close>

theorem add_product_blank_sku:
  "str_upper (str_strip ''  '') = [] \<and>
   add_product init_db ''  '' ''Widget'' 1 5 =
     (Inr (''Widget'', ''  ''),
      \<lparr>products = [\<lparr>sku = [], name = ''Widget'', price = 1, quantity = 5\<rparr>],
       transactions = [], transaction_items = [],
       transactions_seq = 0, transaction_items_seq = 0\<rparr>)"
  by (simp add: add_product_def insert_product_def init_db_def str_strip_def str_upper_def
      isspace_def whitespace_def)

lemma add_product_blank_name:
  "add_product init_db ''sku1'' '' '' 1 5 =
     (Inr ('' '', ''sku1''),
      \<lparr>products = [\<lparr>sku = ''SKU1'', name = [], price = 1, quantity = 5\<rparr>],
       transactions = [], transaction_items = [],
       transactions_seq = 0, transaction_items_seq = 0\<rparr>)"
  by (simp add: add_product_def insert_product_def init_db_def str_strip_def str_upper_def
      isspace_def whitespace_def upper_char_def)




end
